theory Spec2Isabelle
  imports Complex_Main
begin

section \<open>The geometric image-fit engine of image-lora-prep\<close>

text \<open>
  This theory embeds \<^verbatim>\<open>src/func/resize.py\<close> (\<^verbatim>\<open>center_crop_to_aspect\<close>,
  \<^verbatim>\<open>resize_to_exact\<close>, \<^verbatim>\<open>resize_within_bounds\<close>, \<^verbatim>\<open>letterbox_to_aspect\<close>) and
  \<^verbatim>\<open>map_resample\<close> of \<^verbatim>\<open>src/func/io_utils.py\<close>.

  Conventions of the embedding:
  \<^item> Python's unbounded \<^verbatim>\<open>int\<close> is \<^typ>\<open>int\<close>.
  \<^item> Python's \<^verbatim>\<open>float\<close> is modelled by the exact rationals \<^typ>\<open>rat\<close>: \<^verbatim>\<open>/\<close>, \<^verbatim>\<open>*\<close>,
    \<^verbatim>\<open>min\<close>, \<^verbatim>\<open>max\<close>, \<^verbatim>\<open>abs\<close> are the exact operations, and the literal \<^verbatim>\<open>1e-6\<close> is
    the rational \<open>1/1000000\<close>. The rounding error of IEEE doubles is not modelled;
    the concrete inputs evaluated below are chosen so that they do not depend on it.
  \<^item> PIL images are objects: a heap is a list of image values, a reference is an index
    into it, and a fresh object is appended. Functions take the heap and return it.
  \<^item> Pixel data is opaque to the engine; it is modelled symbolically, as the expression
    of library calls that produced it.
  \<^item> Every \<^verbatim>\<open>ZeroDivisionError\<close> of the source and every \<^verbatim>\<open>ValueError\<close> of the
    library calls it makes is a branch \<open>Inl e\<close> of the result.
\<close>

subsection \<open>Python numbers\<close>

datatype error = ZeroDivisionError | ValueError

text \<open>The literal \<^verbatim>\<open>1e-6\<close> used as comparison tolerance.\<close>

definition tol :: rat where
  "tol = 1 / 1000000"

text \<open>
  Python 3's \<^verbatim>\<open>round(x)\<close> for one argument: the nearest integer, a tie going to the
  even neighbour. \<^verbatim>\<open>int(round(x))\<close> is the same integer.
\<close>

definition py_round :: "rat \<Rightarrow> int" where
  "py_round x =
     (let f = \<lfloor>x\<rfloor>; d = x - of_int f
      in if d < 1 / 2 then f
         else if 1 / 2 < d then f + 1
         else if even f then f else f + 1)"

subsection \<open>Strings and resampling filters\<close>

text \<open>\<^verbatim>\<open>str.lower()\<close> on the characters of an Isabelle string: the ASCII capitals
  \<open>A\<close>..\<open>Z\<close> (codes 65..90) move to \<open>a\<close>..\<open>z\<close>; no other character becomes an ASCII
  letter of the three names compared below.\<close>

definition lower_char :: "char \<Rightarrow> char" where
  "lower_char c =
     (let n = (of_char c :: nat) in if 65 \<le> n \<and> n \<le> 90 then char_of (n + 32) else c)"

definition lower :: "string \<Rightarrow> string" where
  "lower s = map lower_char s"

text \<open>Pillow's resampling constants \<^verbatim>\<open>Image.NEAREST\<close>, \<^verbatim>\<open>Image.LANCZOS\<close>,
  \<^verbatim>\<open>Image.BILINEAR\<close>, \<^verbatim>\<open>Image.BICUBIC\<close> (the enumeration \<^verbatim>\<open>Resampling\<close>).\<close>

datatype resampling = NEAREST | LANCZOS | BILINEAR | BICUBIC

text \<open>\<^verbatim>\<open>io_utils.map_resample\<close>. The argument is \<open>None\<close> or a string;
  \<^verbatim>\<open>(name or "")\<close> turns \<open>None\<close> (and the empty string) into the empty string.\<close>

definition map_resample :: "string option \<Rightarrow> resampling" where
  "map_resample name =
     (let name_lower = lower (case name of None \<Rightarrow> [] | Some s \<Rightarrow> s)
      in if name_lower = ''nearest'' then NEAREST
         else if name_lower = ''bilinear'' then BILINEAR
         else if name_lower = ''bicubic'' then BICUBIC
         else LANCZOS)"

subsection \<open>Images of the imaging library\<close>

type_synonym box = "int \<times> int \<times> int \<times> int"
type_synonym rgb = "int \<times> int \<times> int"

text \<open>Pixel content, as the expression that produced it: an opaque decoded buffer, a
  crop of a buffer to a box, a resampling of a buffer to a size with a filter, a solid
  fill, and a buffer with another image (its size and content) pasted at an offset.\<close>

datatype pixels =
    Raw nat
  | Cropped box pixels
  | Resized "int \<times> int" resampling pixels
  | Filled rgb
  | Pasted pixels "int \<times> int" "int \<times> int" pixels

record image =
  width :: int
  height :: int
  pixels :: pixels

type_synonym ref = nat
type_synonym heap = "image list"

text \<open>A new object: appended to the heap, its reference is the old length.\<close>

definition alloc :: "heap \<Rightarrow> image \<Rightarrow> heap \<times> ref" where
  "alloc hp im = (hp @ [im], length hp)"

text \<open>\<^verbatim>\<open>Image.crop(box)\<close>: Pillow rejects a box whose right edge is left of its left edge
  or whose lower edge is above its upper edge; otherwise the result has the size of the
  box (an empty box gives an image with a zero dimension).\<close>

definition pil_crop :: "image \<Rightarrow> box \<Rightarrow> error + image" where
  "pil_crop im b =
     (case b of (x0, y0, x1, y1) \<Rightarrow>
        if x1 < x0 \<or> y1 < y0 then Inl ValueError
        else Inr \<lparr>width = x1 - x0, height = y1 - y0, pixels = Cropped b (pixels im)\<rparr>)"

text \<open>\<^verbatim>\<open>Image.resize(size, resample)\<close>: a request for the image's own size returns a
  copy; a size with a dimension below 1 is refused (\<^verbatim>\<open>height and width must be > 0\<close>);
  otherwise the result has exactly the requested size.\<close>

definition pil_resize :: "image \<Rightarrow> int \<times> int \<Rightarrow> resampling \<Rightarrow> error + image" where
  "pil_resize im sz flt =
     (if (width im, height im) = sz then Inr im
      else if fst sz < 1 \<or> snd sz < 1 then Inl ValueError
      else Inr \<lparr>width = fst sz, height = snd sz, pixels = Resized sz flt (pixels im)\<rparr>)"

text \<open>\<^verbatim>\<open>round_aspect(number, key)\<close> inside \<^verbatim>\<open>Image.thumbnail\<close>:
  \<^verbatim>\<open>max(min(math.floor(number), math.ceil(number), key=key), 1)\<close>. Python's \<^verbatim>\<open>min\<close>
  keeps the first of two candidates with equal keys.\<close>

definition round_aspect :: "rat \<Rightarrow> (int \<Rightarrow> rat) \<Rightarrow> int" where
  "round_aspect number key =
     max (if key \<lfloor>number\<rfloor> \<le> key \<lceil>number\<rceil> then \<lfloor>number\<rfloor> else \<lceil>number\<rceil>) 1"

text \<open>\<^verbatim>\<open>preserve_aspect_ratio()\<close> inside \<^verbatim>\<open>Image.thumbnail\<close> (Pillow 7 and later): \<open>None\<close>
  when the image already fits the requested size (a thumbnail never enlarges), else the
  largest size of the image's aspect ratio inside the requested one.\<close>

definition preserve_aspect_ratio :: "image \<Rightarrow> int \<times> int \<Rightarrow> error + (int \<times> int) option" where
  "preserve_aspect_ratio im sz =
     (case sz of (x, y) \<Rightarrow>
        if width im \<le> x \<and> height im \<le> y then Inr None
        else if height im = 0 \<or> y = 0 then Inl ZeroDivisionError
        else
          let aspect = (of_int (width im) / of_int (height im) :: rat)
          in if aspect \<le> of_int x / of_int y
             then Inr (Some (round_aspect (of_int y * aspect)
                               (\<lambda>n. \<bar>aspect - of_int n / of_int y\<bar>), y))
             else if aspect = 0 then Inl ZeroDivisionError
             else Inr (Some (x, round_aspect (of_int x / aspect)
                               (\<lambda>n. if n = 0 then 0 else \<bar>aspect - of_int x / of_int n\<bar>))))"

text \<open>\<^verbatim>\<open>Image.thumbnail(size, resample)\<close> changes the image in place; the model returns
  the new value of the object. The image is resampled only when the computed size
  differs from its own.\<close>

definition pil_thumbnail :: "image \<Rightarrow> int \<times> int \<Rightarrow> resampling \<Rightarrow> error + image" where
  "pil_thumbnail im sz flt =
     (case preserve_aspect_ratio im sz of
        Inl e \<Rightarrow> Inl e
      | Inr None \<Rightarrow> Inr im
      | Inr (Some final_size) \<Rightarrow>
          if (width im, height im) \<noteq> final_size then pil_resize im final_size flt
          else Inr im)"

text \<open>\<^verbatim>\<open>Image.new("RGB", size, fill)\<close>: a negative dimension is refused.\<close>

definition pil_new :: "int \<times> int \<Rightarrow> rgb \<Rightarrow> error + image" where
  "pil_new sz fill =
     (if fst sz < 0 \<or> snd sz < 0 then Inl ValueError
      else Inr \<lparr>width = fst sz, height = snd sz, pixels = Filled fill\<rparr>)"

text \<open>\<^verbatim>\<open>canvas.paste(img, (x, y))\<close> changes the canvas in place; the model returns its
  new value. The size of the canvas does not change.\<close>

definition pil_paste :: "image \<Rightarrow> image \<Rightarrow> int \<times> int \<Rightarrow> image" where
  "pil_paste canvas img pos =
     canvas\<lparr>pixels := Pasted (pixels canvas) pos (width img, height img) (pixels img)\<rparr>"

subsection \<open>Constraints (config.py)\<close>

record constraints =
  min_width :: "int option"
  min_height :: "int option"
  max_width :: "int option"
  max_height :: "int option"
  allow_upscale :: bool

text \<open>Truth value of an \<^verbatim>\<open>int | None\<close>: \<open>None\<close> and \<open>0\<close> are false.\<close>

definition truthy :: "int option \<Rightarrow> bool" where
  "truthy v = (case v of None \<Rightarrow> False | Some n \<Rightarrow> n \<noteq> 0)"

text \<open>Python's \<^verbatim>\<open>v or d\<close> for an \<^verbatim>\<open>int | None\<close> \<open>v\<close>.\<close>

definition or_else :: "int option \<Rightarrow> int \<Rightarrow> int" where
  "or_else v d = (case v of None \<Rightarrow> d | Some n \<Rightarrow> if n = 0 then d else n)"

subsection \<open>resize.py\<close>

text \<open>\<^verbatim>\<open>center_crop_to_aspect(image, target_aspect)\<close>, lines 35 to 52.\<close>

definition center_crop_to_aspect :: "heap \<Rightarrow> ref \<Rightarrow> rat \<Rightarrow> error + heap \<times> ref" where
  "center_crop_to_aspect hp image' target_aspect =
     (let w = width (hp ! image'); h = height (hp ! image')
      in if h = 0 then Inl ZeroDivisionError
         else
           let current_aspect = (of_int w / of_int h :: rat)
           in if \<bar>current_aspect - target_aspect\<bar> < tol then Inr (hp, image')
              else if target_aspect < current_aspect then
                let new_width = py_round (of_int h * target_aspect);
                    x0 = (w - new_width) div 2
                in (case pil_crop (hp ! image') (x0, 0, x0 + new_width, h) of
                      Inl e \<Rightarrow> Inl e
                    | Inr im \<Rightarrow> Inr (alloc hp im))
              else if target_aspect = 0 then Inl ZeroDivisionError
              else
                let new_height = py_round (of_int w / target_aspect);
                    y0 = (h - new_height) div 2
                in (case pil_crop (hp ! image') (0, y0, w, y0 + new_height) of
                      Inl e \<Rightarrow> Inl e
                    | Inr im \<Rightarrow> Inr (alloc hp im)))"

text \<open>\<^verbatim>\<open>resize_to_exact(image, size, resample)\<close>, line 75.\<close>

definition resize_to_exact :: "heap \<Rightarrow> ref \<Rightarrow> int \<times> int \<Rightarrow> string option \<Rightarrow> error + heap \<times> ref" where
  "resize_to_exact hp image' sz resample =
     (case pil_resize (hp ! image') sz (map_resample resample) of
        Inl e \<Rightarrow> Inl e
      | Inr im \<Rightarrow> Inr (alloc hp im))"

text \<open>The value of the local \<^verbatim>\<open>scale\<close> of \<^verbatim>\<open>resize_within_bounds\<close> after lines 101 to
  115, for an image of width \<open>w\<close> and height \<open>h\<close>. A division by a zero width or height
  raises.\<close>

definition scale_down :: "constraints \<Rightarrow> int \<Rightarrow> int \<Rightarrow> rat" where
  "scale_down c w h =
     (let max_w = or_else (max_width c) w; max_h = or_else (max_height c) h
      in min (of_int max_w / of_int w) (of_int max_h / of_int h))"

definition scale_up :: "constraints \<Rightarrow> int \<Rightarrow> int \<Rightarrow> rat" where
  "scale_up c w h =
     (let min_w = or_else (min_width c) w; min_h = or_else (min_height c) h
      in max (of_int min_w / of_int w) (of_int min_h / of_int h))"

definition bounds_scale :: "constraints \<Rightarrow> int \<Rightarrow> int \<Rightarrow> error + rat" where
  "bounds_scale c w h =
     (let scale = (1 :: rat)
      in if (truthy (max_width c) \<or> truthy (max_height c)) \<and> (w = 0 \<or> h = 0)
         then Inl ZeroDivisionError
         else
           let scale = (if truthy (max_width c) \<or> truthy (max_height c)
                        then min scale (scale_down c w h) else scale)
           in if allow_upscale c \<and> (truthy (min_width c) \<or> truthy (min_height c))
                 \<and> (w = 0 \<or> h = 0)
              then Inl ZeroDivisionError
              else Inr (if allow_upscale c \<and> (truthy (min_width c) \<or> truthy (min_height c))
                        then max scale (scale_up c w h) else scale))"

text \<open>\<^verbatim>\<open>resize_within_bounds(image, constraints, resample)\<close>, lines 100 to 121.\<close>

definition resize_within_bounds ::
  "heap \<Rightarrow> ref \<Rightarrow> constraints \<Rightarrow> string option \<Rightarrow> error + heap \<times> ref" where
  "resize_within_bounds hp image' c resample =
     (let w = width (hp ! image'); h = height (hp ! image')
      in case bounds_scale c w h of
           Inl e \<Rightarrow> Inl e
         | Inr scale \<Rightarrow>
             if \<bar>scale - 1\<bar> < tol then Inr (hp, image')
             else
               let new_size = (max 1 (py_round (of_int w * scale)),
                               max 1 (py_round (of_int h * scale)))
               in (case pil_resize (hp ! image') new_size (map_resample resample) of
                     Inl e \<Rightarrow> Inl e
                   | Inr im \<Rightarrow> Inr (alloc hp im)))"

text \<open>\<^verbatim>\<open>letterbox_to_aspect(image, target_size, fill, resample)\<close>, lines 149 to 157:
  \<open>img\<close> is a copy of the input, shrunk in place by \<^verbatim>\<open>thumbnail\<close>; \<open>canvas\<close> is a new
  image, changed in place by \<^verbatim>\<open>paste\<close>.\<close>

definition letterbox_to_aspect ::
  "heap \<Rightarrow> ref \<Rightarrow> int \<times> int \<Rightarrow> rgb \<Rightarrow> string option \<Rightarrow> error + heap \<times> ref" where
  "letterbox_to_aspect hp image' target_size fill resample =
     (case target_size of (target_w, target_h) \<Rightarrow>
        (case alloc hp (hp ! image') of (hp1, img) \<Rightarrow>
           (case pil_thumbnail (hp1 ! img) (target_w, target_h) (map_resample resample) of
              Inl e \<Rightarrow> Inl e
            | Inr t \<Rightarrow>
                (let hp2 = list_update hp1 img t
                 in (case pil_new (target_w, target_h) fill of
                       Inl e \<Rightarrow> Inl e
                     | Inr cv \<Rightarrow>
                         (case alloc hp2 cv of (hp3, canvas) \<Rightarrow>
                            (let x = (target_w - width (hp3 ! img)) div 2;
                                 y = (target_h - height (hp3 ! img)) div 2
                             in Inr (list_update hp3 canvas
                                       (pil_paste (hp3 ! canvas) (hp3 ! img) (x, y)),
                                     canvas))))))))"

section \<open>Auxiliary facts\<close>

subsection \<open>Rounding\<close>

lemma py_round_le: "x \<le> of_int n \<Longrightarrow> py_round x \<le> n"
proof -
  assume a: "x \<le> of_int n"
  have f1: "\<lfloor>x\<rfloor> \<le> n" using a by (simp add: floor_le_iff)
  have f2: "0 < x - of_int \<lfloor>x\<rfloor> \<Longrightarrow> \<lfloor>x\<rfloor> + 1 \<le> n"
  proof -
    assume "0 < x - of_int \<lfloor>x\<rfloor>"
    then have "of_int \<lfloor>x\<rfloor> < (of_int n :: rat)" using a by linarith
    then show ?thesis by simp
  qed
  show ?thesis using f1 f2 unfolding py_round_def Let_def by (auto split: if_splits)
qed

lemma py_round_ge: "of_int n \<le> x \<Longrightarrow> n \<le> py_round x"
proof -
  assume a: "of_int n \<le> x"
  have f1: "n \<le> \<lfloor>x\<rfloor>" using a by (simp add: le_floor_iff)
  show ?thesis using f1 unfolding py_round_def Let_def by (auto split: if_splits)
qed

lemma py_round_of_int: "py_round (of_int n) = n"
  by (simp add: py_round_def)

lemma py_round_close: "\<bar>of_int (py_round x) - x\<bar> \<le> 1 / 2"
proof -
  have "of_int \<lfloor>x\<rfloor> \<le> x" "x < of_int \<lfloor>x\<rfloor> + 1" by linarith+
  then show ?thesis unfolding py_round_def Let_def by (auto split: if_splits)
qed

subsection \<open>The scale of \<^verbatim>\<open>resize_within_bounds\<close> on an image with positive dimensions\<close>




subsection \<open>Library calls that succeed\<close>

lemma pil_resize_ok:
  "1 \<le> fst sz \<Longrightarrow> 1 \<le> snd sz \<Longrightarrow>
   \<exists>px. pil_resize im sz flt = Inr \<lparr>width = fst sz, height = snd sz, pixels = px\<rparr>"
  by (cases sz; cases im) (auto simp: pil_resize_def)


section \<open>The claims\<close>

subsection \<open>C1: conflicting bounds\<close>



subsection \<open>C6: the crop of a source that is too wide\<close>

lemma center_crop_wide:
  assumes "width (hp ! r) = w" "height (hp ! r) = h" "h \<noteq> 0"
    and "\<not> \<bar>of_int w / of_int h - a\<bar> < tol" "a < of_int w / of_int h"
    and "new_width = py_round (of_int h * a)" "x0 = (w - new_width) div 2"
  shows "center_crop_to_aspect hp r a =
           (case pil_crop (hp ! r) (x0, 0, x0 + new_width, h) of
              Inl e \<Rightarrow> Inl e
            | Inr im \<Rightarrow> Inr (hp @ [im], length hp))"
  using assms unfolding center_crop_to_aspect_def alloc_def Let_def by simp



subsection \<open>C8: the crop of a source that has the target aspect\<close>



subsection \<open>C4: non-positive numeric inputs\<close>




subsection \<open>C5: the crop box\<close>

text \<open>
  For a positive target aspect the computed box always lies inside the source, and the
  cropped dimension is the rounded ideal one; the box is empty exactly when that
  rounding gives 0.
\<close>

lemma center_crop_box_within_source:
  assumes "width (hp ! r) = w" "height (hp ! r) = h" "0 < w" "0 < h" "0 < a"
    and "\<not> \<bar>of_int w / of_int h - a\<bar> < tol"
  shows "\<exists>x0 y0 x1 y1.
           center_crop_to_aspect hp r a =
             Inr (hp @ [\<lparr>width = x1 - x0, height = y1 - y0,
                          pixels = Cropped (x0, y0, x1, y1) (pixels (hp ! r))\<rparr>],
                  length hp)
         \<and> 0 \<le> x0 \<and> x0 \<le> x1 \<and> x1 \<le> w \<and> 0 \<le> y0 \<and> y0 \<le> y1 \<and> y1 \<le> h
         \<and> (x1 - x0 = py_round (of_int h * a) \<and> y1 - y0 = h
            \<or> x1 - x0 = w \<and> y1 - y0 = py_round (of_int w / a))"
proof (cases "a < of_int w / of_int h")
  case True
  define nw where "nw = py_round (of_int h * a)"
  define x0 where "x0 = (w - nw) div 2"
  have "a * of_int h < of_int w"
    using True assms(4) by (simp add: pos_less_divide_eq)
  then have "of_int h * a \<le> of_int w" by (simp add: mult.commute)
  then have up: "nw \<le> w" unfolding nw_def by (rule py_round_le)
  have "(of_int 0 :: rat) \<le> of_int h * a" using assms(4,5) by simp
  then have lo: "0 \<le> nw" unfolding nw_def by (rule py_round_ge)
  have h0: "h \<noteq> 0" using assms(4) by simp
  have "center_crop_to_aspect hp r a =
      Inr (hp @ [\<lparr>width = (x0 + nw) - x0, height = h - 0,
                   pixels = Cropped (x0, 0, x0 + nw, h) (pixels (hp ! r))\<rparr>], length hp)"
    using center_crop_wide [OF assms(1) assms(2) h0 assms(6) True nw_def x0_def] lo assms(4)
    by (simp add: pil_crop_def)
  moreover have "0 \<le> x0 \<and> x0 \<le> x0 + nw \<and> x0 + nw \<le> w \<and> (0::int) \<le> 0 \<and> 0 \<le> h \<and> h \<le> h"
    using lo up assms(4) unfolding x0_def by auto
  moreover have "(x0 + nw) - x0 = py_round (of_int h * a) \<and> h - 0 = h"
    by (simp add: nw_def)
  ultimately show ?thesis by blast
next
  case False
  define nh where "nh = py_round (of_int w / a)"
  define y0 where "y0 = (h - nh) div 2"
  have "of_int w / of_int h \<le> a" using False by simp
  then have "of_int w \<le> a * of_int h"
    using assms(4) by (simp add: pos_divide_le_eq)
  then have "of_int w / a \<le> of_int h"
    using assms(5) by (simp add: pos_divide_le_eq mult.commute)
  then have up: "nh \<le> h" unfolding nh_def by (rule py_round_le)
  have "(of_int 0 :: rat) \<le> of_int w / a" using assms(3,5) by simp
  then have lo: "0 \<le> nh" unfolding nh_def by (rule py_round_ge)
  have a0: "a \<noteq> 0" using assms(5) by simp
  have "center_crop_to_aspect hp r a =
      Inr (hp @ [\<lparr>width = w - 0, height = (y0 + nh) - y0,
                   pixels = Cropped (0, y0, w, y0 + nh) (pixels (hp ! r))\<rparr>], length hp)"
    using assms(1,2,3,4,6) False a0 lo
    unfolding center_crop_to_aspect_def alloc_def Let_def nh_def y0_def
    by (simp add: pil_crop_def)
  moreover have "(0::int) \<le> 0 \<and> 0 \<le> w \<and> w \<le> w \<and> 0 \<le> y0 \<and> y0 \<le> y0 + nh \<and> y0 + nh \<le> h"
    using lo up assms(3) unfolding y0_def by auto
  moreover have "w - 0 = w \<and> (y0 + nh) - y0 = py_round (of_int w / a)"
    by (simp add: nh_def)
  ultimately show ?thesis by blast
qed

text \<open>
  C5. The claim asks for a crop box with \<open>x0 < x1\<close> and \<open>y0 < y1\<close> for every positive
  target aspect. The code computes an empty box when the rounded dimension is 0: a
  10 by 1 image cropped to the aspect of the 9:21 preset (640/1536) gets
  \<open>new_width = round(0.4167) = 0\<close>, the box \<open>(5, 0, 5, 1)\<close> and an output of width 0.
\<close>

theorem center_crop_degenerate_box:
  "center_crop_to_aspect [\<lparr>width = 10, height = 1, pixels = Raw 0\<rparr>] 0 (640 / 1536) =
     Inr ([\<lparr>width = 10, height = 1, pixels = Raw 0\<rparr>,
           \<lparr>width = 0, height = 1, pixels = Cropped (5, 0, 5, 1) (Raw 0)\<rparr>], 1)"
  by code_simp

subsection \<open>C10: resample names\<close>

text \<open>
  C10. \<^verbatim>\<open>map_resample\<close> returns a filter for every argument: for \<open>None\<close> and the empty
  string it is \<open>LANCZOS\<close>; for a name whose lower-case form is \<open>nearest\<close>, \<open>bilinear\<close> or
  \<open>bicubic\<close> it is that filter; for every other string it is \<open>LANCZOS\<close>, so that
  \<^verbatim>\<open>resize_to_exact\<close>, \<^verbatim>\<open>resize_within_bounds\<close> and \<^verbatim>\<open>letterbox_to_aspect\<close> behave on
  an unrecognised name exactly as on \<open>lanczos\<close>.
\<close>

theorem map_resample_falls_back_to_lanczos:
  "map_resample None = LANCZOS \<and> map_resample (Some []) = LANCZOS
   \<and> (lower s = ''nearest'' \<longrightarrow> map_resample (Some s) = NEAREST)
   \<and> (lower s = ''bilinear'' \<longrightarrow> map_resample (Some s) = BILINEAR)
   \<and> (lower s = ''bicubic'' \<longrightarrow> map_resample (Some s) = BICUBIC)
   \<and> (lower s \<noteq> ''nearest'' \<and> lower s \<noteq> ''bilinear'' \<and> lower s \<noteq> ''bicubic'' \<longrightarrow>
        map_resample (Some s) = LANCZOS
      \<and> resize_to_exact hp r sz (Some s) = resize_to_exact hp r sz (Some ''lanczos'')
      \<and> resize_within_bounds hp r c (Some s) = resize_within_bounds hp r c (Some ''lanczos'')
      \<and> letterbox_to_aspect hp r sz fill (Some s) =
          letterbox_to_aspect hp r sz fill (Some ''lanczos''))"
proof -
  have l: "map_resample (Some ''lanczos'') = LANCZOS"
    by (simp add: map_resample_def lower_def lower_char_def)
  have m: "lower s \<noteq> ''nearest'' \<and> lower s \<noteq> ''bilinear'' \<and> lower s \<noteq> ''bicubic'' \<Longrightarrow>
      map_resample (Some s) = map_resample (Some ''lanczos'')"
    unfolding l by (simp add: map_resample_def)
  have e: "resize_to_exact hp r sz (Some s) = resize_to_exact hp r sz (Some ''lanczos'')
      \<and> resize_within_bounds hp r c (Some s) = resize_within_bounds hp r c (Some ''lanczos'')
      \<and> letterbox_to_aspect hp r sz fill (Some s) =
          letterbox_to_aspect hp r sz fill (Some ''lanczos'')"
    if ne: "lower s \<noteq> ''nearest'' \<and> lower s \<noteq> ''bilinear'' \<and> lower s \<noteq> ''bicubic''"
  proof -
    have mm: "map_resample (Some s) = map_resample (Some ''lanczos'')"
      using m ne by simp
    show ?thesis
      unfolding resize_to_exact_def resize_within_bounds_def letterbox_to_aspect_def mm
      by simp
  qed
  have n: "map_resample None = LANCZOS \<and> map_resample (Some []) = LANCZOS"
    by (simp add: map_resample_def lower_def)
  have k: "(lower s = ''nearest'' \<longrightarrow> map_resample (Some s) = NEAREST)
   \<and> (lower s = ''bilinear'' \<longrightarrow> map_resample (Some s) = BILINEAR)
   \<and> (lower s = ''bicubic'' \<longrightarrow> map_resample (Some s) = BICUBIC)"
    by (simp add: map_resample_def)
  show ?thesis using n k m e l by simp
qed

theorem map_resample_falls_back_to_lanczos_witness:
  "map_resample (Some ''BiCubic'') = BICUBIC
   \<and> map_resample (Some ''NEAREST'') = NEAREST
   \<and> map_resample (Some ''lancoz'') = LANCZOS
   \<and> resize_to_exact [\<lparr>width = 8, height = 6, pixels = Raw 0\<rparr>] 0 (4, 3) (Some ''lancoz'') =
       Inr ([\<lparr>width = 8, height = 6, pixels = Raw 0\<rparr>,
             \<lparr>width = 4, height = 3, pixels = Resized (4, 3) LANCZOS (Raw 0)\<rparr>], 1)"
proof -
  have b: "lower ''BiCubic'' = ''bicubic''" and n: "lower ''NEAREST'' = ''nearest''"
    and z: "lower ''lancoz'' \<noteq> ''nearest'' \<and> lower ''lancoz'' \<noteq> ''bilinear''
          \<and> lower ''lancoz'' \<noteq> ''bicubic''"
    by code_simp+
  have r: "resize_to_exact [\<lparr>width = 8, height = 6, pixels = Raw 0\<rparr>] 0 (4, 3) (Some ''lanczos'') =
       Inr ([\<lparr>width = 8, height = 6, pixels = Raw 0\<rparr>,
             \<lparr>width = 4, height = 3, pixels = Resized (4, 3) LANCZOS (Raw 0)\<rparr>], 1)"
    by (simp add: resize_to_exact_def pil_resize_def alloc_def map_resample_def lower_def
        lower_char_def)
  show ?thesis
    using map_resample_falls_back_to_lanczos [of "''BiCubic''"]
      map_resample_falls_back_to_lanczos [of "''NEAREST''"]
      map_resample_falls_back_to_lanczos [of "''lancoz''" "[\<lparr>width = 8, height = 6, pixels = Raw 0\<rparr>]" 0 "(4, 3)"]
      b n z r
    by simp
qed

subsection \<open>C2: no upscaling, and the maximum width\<close>





subsection \<open>The thumbnail inside the letterbox\<close>

lemma round_aspect_bounds:
  assumes "x \<le> of_int m" "1 \<le> m"
  shows "1 \<le> round_aspect x key \<and> round_aspect x key \<le> m"
proof -
  have "\<lfloor>x\<rfloor> \<le> m" using assms(1) by (simp add: floor_le_iff)
  moreover have "\<lceil>x\<rceil> \<le> m" using assms(1) by (simp add: ceiling_le_iff)
  ultimately show ?thesis using assms(2) by (simp add: round_aspect_def)
qed

lemma round_aspect_of_int: "1 \<le> m \<Longrightarrow> round_aspect (of_int m) key = m"
  by (simp add: round_aspect_def)

lemma pil_thumbnail_fits:
  assumes "0 < width im" "0 < height im" "0 < W" "0 < H"
  shows "\<exists>t. pil_thumbnail im (W, H) flt = Inr t
           \<and> 1 \<le> width t \<and> width t \<le> W \<and> 1 \<le> height t \<and> height t \<le> H"
proof (cases "width im \<le> W \<and> height im \<le> H")
  case True
  then have "pil_thumbnail im (W, H) flt = Inr im"
    by (simp add: pil_thumbnail_def preserve_aspect_ratio_def)
  then show ?thesis using True assms by simp
next
  case False
  define aspect :: rat where "aspect = of_int (width im) / of_int (height im)"
  have ap: "0 < aspect" using assms(1,2) by (simp add: aspect_def)
  show ?thesis
  proof (cases "aspect \<le> of_int W / of_int H")
    case True
    define x where "x = round_aspect (of_int H * aspect) (\<lambda>n. \<bar>aspect - of_int n / of_int H\<bar>)"
    have "of_int H * aspect \<le> of_int W"
      using True assms(4) by (simp add: pos_le_divide_eq mult.commute)
    then have xb: "1 \<le> x \<and> x \<le> W"
      unfolding x_def using assms(3) by (intro round_aspect_bounds) simp_all
    have p: "preserve_aspect_ratio im (W, H) = Inr (Some (x, H))"
      unfolding preserve_aspect_ratio_def x_def aspect_def Let_def
      using False True [unfolded aspect_def] assms(1,2,4) by simp
    obtain px where "pil_resize im (x, H) flt = Inr \<lparr>width = x, height = H, pixels = px\<rparr>"
      using pil_resize_ok [of "(x, H)" im flt] xb assms(4) by auto
    then have "\<exists>px. pil_thumbnail im (W, H) flt = Inr \<lparr>width = x, height = H, pixels = px\<rparr>"
      using p by (cases im) (auto simp: pil_thumbnail_def)
    then show ?thesis using xb assms(4) by auto
  next
    case nle: False
    define y where "y = round_aspect (of_int W / aspect)
        (\<lambda>n. if n = 0 then 0 else \<bar>aspect - of_int W / of_int n\<bar>)"
    have "of_int W / of_int H < aspect" using nle by simp
    then have "of_int W < aspect * of_int H"
      using assms(4) by (simp add: pos_divide_less_eq)
    then have "of_int W / aspect \<le> of_int H"
      using ap by (simp add: pos_divide_le_eq mult.commute)
    then have yb: "1 \<le> y \<and> y \<le> H"
      unfolding y_def using assms(4) by (intro round_aspect_bounds) simp_all
    have p: "preserve_aspect_ratio im (W, H) = Inr (Some (W, y))"
      unfolding preserve_aspect_ratio_def y_def aspect_def Let_def
      using False nle [unfolded aspect_def] assms(1,2,4) by simp
    obtain px where "pil_resize im (W, y) flt = Inr \<lparr>width = W, height = y, pixels = px\<rparr>"
      using pil_resize_ok [of "(W, y)" im flt] yb assms(3) by auto
    then have "\<exists>px. pil_thumbnail im (W, H) flt = Inr \<lparr>width = W, height = y, pixels = px\<rparr>"
      using p by (cases im) (auto simp: pil_thumbnail_def)
    then show ?thesis using yb assms(3) by auto
  qed
qed

lemma letterbox_unfold:
  assumes "pil_thumbnail (hp ! r) (W, H) (map_resample rs) = Inr t" "0 \<le> W" "0 \<le> H"
  shows "letterbox_to_aspect hp r (W, H) fill rs =
           Inr (hp @ [t, \<lparr>width = W, height = H,
                           pixels = Pasted (Filled fill)
                                      ((W - width t) div 2, (H - height t) div 2)
                                      (width t, height t) (pixels t)\<rparr>],
                Suc (length hp))"
  using assms
  by (simp add: letterbox_to_aspect_def alloc_def pil_new_def pil_paste_def Let_def
      nth_append list_update_append)


subsection \<open>C7: the letterbox\<close>

text \<open>
  C7. For an image with positive dimensions, every fill colour and every positive target
  size \<open>(W, H)\<close>, \<^verbatim>\<open>letterbox_to_aspect\<close> returns a new canvas of exactly \<open>(W, H)\<close>,
  filled with the fill colour, onto which the scaled copy of the source, of a size
  \<open>(sw, sh)\<close> with \<open>1 \<le> sw \<le> W\<close> and \<open>1 \<le> sh \<le> H\<close>, is pasted at
  \<open>((W - sw) // 2, (H - sh) // 2)\<close>; the pasted region lies inside the canvas. A
  300 by 600 source letterboxed to \<open>(400, 400)\<close> is scaled to \<open>(200, 400)\<close> and pasted
  at \<open>(100, 0)\<close>.
\<close>

theorem letterbox_exact_size_centered:
  assumes "width (hp ! r) = w" "height (hp ! r) = h" "0 < w" "0 < h" "0 < W" "0 < H"
  shows "\<exists>sw sh spx.
           1 \<le> sw \<and> sw \<le> W \<and> 1 \<le> sh \<and> sh \<le> H
         \<and> 0 \<le> (W - sw) div 2 \<and> (W - sw) div 2 + sw \<le> W
         \<and> 0 \<le> (H - sh) div 2 \<and> (H - sh) div 2 + sh \<le> H
         \<and> letterbox_to_aspect hp r (W, H) fill rs =
             Inr (hp @ [\<lparr>width = sw, height = sh, pixels = spx\<rparr>,
                        \<lparr>width = W, height = H,
                           pixels = Pasted (Filled fill) ((W - sw) div 2, (H - sh) div 2)
                                      (sw, sh) spx\<rparr>],
                  Suc (length hp))"
proof -
  obtain t where t: "pil_thumbnail (hp ! r) (W, H) (map_resample rs) = Inr t"
    and b: "1 \<le> width t \<and> width t \<le> W \<and> 1 \<le> height t \<and> height t \<le> H"
    using pil_thumbnail_fits [of "hp ! r" W H "map_resample rs"] assms by auto
  have l: "letterbox_to_aspect hp r (W, H) fill rs =
           Inr (hp @ [\<lparr>width = width t, height = height t, pixels = pixels t\<rparr>,
                      \<lparr>width = W, height = H,
                           pixels = Pasted (Filled fill)
                                      ((W - width t) div 2, (H - height t) div 2)
                                      (width t, height t) (pixels t)\<rparr>],
                Suc (length hp))"
    using letterbox_unfold [OF t, of fill] assms(5,6) by (cases t) simp
  have c: "0 \<le> (W - width t) div 2 \<and> (W - width t) div 2 + width t \<le> W
         \<and> 0 \<le> (H - height t) div 2 \<and> (H - height t) div 2 + height t \<le> H"
    using b by auto
  show ?thesis using b c l by blast
qed

theorem letterbox_exact_size_centered_witness:
  "letterbox_to_aspect [\<lparr>width = 300, height = 600, pixels = Raw 0\<rparr>] 0 (400, 400)
       (0, 0, 0) (Some ''lanczos'') =
     Inr ([\<lparr>width = 300, height = 600, pixels = Raw 0\<rparr>,
           \<lparr>width = 200, height = 400, pixels = Resized (200, 400) LANCZOS (Raw 0)\<rparr>,
           \<lparr>width = 400, height = 400,
              pixels = Pasted (Filled (0, 0, 0)) (100, 0) (200, 400)
                         (Resized (200, 400) LANCZOS (Raw 0))\<rparr>], 2)
   \<and> (\<exists>sw sh spx. 1 \<le> sw \<and> sw \<le> 400 \<and> 1 \<le> sh \<and> sh \<le> 400
         \<and> letterbox_to_aspect [\<lparr>width = 300, height = 600, pixels = Raw 0\<rparr>] 0 (400, 400)
              (0, 0, 0) (Some ''lanczos'') =
             Inr ([\<lparr>width = 300, height = 600, pixels = Raw 0\<rparr>] @
                       [\<lparr>width = sw, height = sh, pixels = spx\<rparr>,
                        \<lparr>width = 400, height = 400,
                           pixels = Pasted (Filled (0, 0, 0))
                                      ((400 - sw) div 2, (400 - sh) div 2) (sw, sh) spx\<rparr>],
                  Suc (length [\<lparr>width = 300, height = 600, pixels = Raw 0\<rparr>])))"
proof -
  let ?hp = "[\<lparr>width = 300, height = 600, pixels = Raw 0\<rparr>]"
  have h1: "width (?hp ! 0) = 300" and h2: "height (?hp ! 0) = 600"
    and h3: "(0::int) < 300" and h4: "(0::int) < 600" and h5: "(0::int) < 400"
    by simp_all
  have e: "letterbox_to_aspect ?hp 0 (400, 400) (0, 0, 0) (Some ''lanczos'') =
     Inr ([\<lparr>width = 300, height = 600, pixels = Raw 0\<rparr>,
           \<lparr>width = 200, height = 400, pixels = Resized (200, 400) LANCZOS (Raw 0)\<rparr>,
           \<lparr>width = 400, height = 400,
              pixels = Pasted (Filled (0, 0, 0)) (100, 0) (200, 400)
                         (Resized (200, 400) LANCZOS (Raw 0))\<rparr>], 2)"
    by code_simp
  from letterbox_exact_size_centered [OF h1 h2 h3 h4 h5 h5, of "(0, 0, 0)" "Some ''lanczos''"]
  have "\<exists>sw sh spx. 1 \<le> sw \<and> sw \<le> 400 \<and> 1 \<le> sh \<and> sh \<le> 400
         \<and> letterbox_to_aspect ?hp 0 (400, 400) (0, 0, 0) (Some ''lanczos'') =
             Inr (?hp @ [\<lparr>width = sw, height = sh, pixels = spx\<rparr>,
                        \<lparr>width = 400, height = 400,
                           pixels = Pasted (Filled (0, 0, 0))
                                      ((400 - sw) div 2, (400 - sh) div 2) (sw, sh) spx\<rparr>],
                  Suc (length ?hp))"
    by blast
  then show ?thesis using e by blast
qed

subsection \<open>C3: a source of the target's aspect ratio\<close>

text \<open>
  The claim as stated fails for a source smaller than the target: the thumbnail never
  enlarges, so a 100 by 100 source letterboxed to \<open>(400, 400)\<close> keeps its size and is
  pasted at \<open>(150, 150)\<close>, with a border on every side.
\<close>

theorem letterbox_small_source_keeps_border:
  "letterbox_to_aspect [\<lparr>width = 100, height = 100, pixels = Raw 0\<rparr>] 0 (400, 400)
       (0, 0, 0) (Some ''lanczos'') =
     Inr ([\<lparr>width = 100, height = 100, pixels = Raw 0\<rparr>,
           \<lparr>width = 100, height = 100, pixels = Raw 0\<rparr>,
           \<lparr>width = 400, height = 400,
              pixels = Pasted (Filled (0, 0, 0)) (150, 150) (100, 100) (Raw 0)\<rparr>], 2)"
  by code_simp

text \<open>
  C3, as amended. For a source with positive dimensions whose aspect ratio is exactly
  that of the positive target size (\<open>w * H = h * W\<close>) and that is not smaller than the
  target (\<open>W \<le> w\<close>), the scaled source has exactly the target size and is pasted at
  the offsets \<open>(0, 0)\<close>: no border appears.
\<close>

theorem letterbox_same_aspect_no_border:
  assumes "width (hp ! r) = w" "height (hp ! r) = h" "0 < w" "0 < h" "0 < W" "0 < H"
    and "w * H = h * W" "W \<le> w"
  shows "\<exists>spx. letterbox_to_aspect hp r (W, H) fill rs =
             Inr (hp @ [\<lparr>width = W, height = H, pixels = spx\<rparr>,
                        \<lparr>width = W, height = H,
                           pixels = Pasted (Filled fill) (0, 0) (W, H) spx\<rparr>],
                  Suc (length hp))"
proof -
  have eq: "(of_int w :: rat) / of_int h = of_int W / of_int H"
  proof -
    have "(of_int w :: rat) * of_int H = of_int h * of_int W"
      using assms(7) by (metis of_int_mult)
    then show ?thesis using assms(4,6) by (simp add: frac_eq_eq mult.commute)
  qed
  have "\<exists>px. pil_thumbnail (hp ! r) (W, H) (map_resample rs) =
          Inr \<lparr>width = W, height = H, pixels = px\<rparr>"
  proof (cases "w \<le> W \<and> h \<le> H")
    case True
    then have "w = W" using assms(8) by simp
    then have "h = H" using assms(7) assms(5) by simp
    have "pil_thumbnail (hp ! r) (W, H) (map_resample rs) = Inr (hp ! r)"
      using True assms(1,2) by (simp add: pil_thumbnail_def preserve_aspect_ratio_def)
    then show ?thesis using \<open>w = W\<close> \<open>h = H\<close> assms(1,2) by (cases "hp ! r") auto
  next
    case False
    have "of_int H * ((of_int w :: rat) / of_int h) = of_int W"
      using eq assms(6) by simp
    then have p: "preserve_aspect_ratio (hp ! r) (W, H) = Inr (Some (W, H))"
      unfolding preserve_aspect_ratio_def Let_def
      using False assms(1,2,4,5,6) eq by (simp add: round_aspect_of_int)
    have ne: "(width (hp ! r), height (hp ! r)) \<noteq> (W, H)"
      using False assms(1,2) by auto
    obtain px where "pil_resize (hp ! r) (W, H) (map_resample rs) =
        Inr \<lparr>width = W, height = H, pixels = px\<rparr>"
      using pil_resize_ok [of "(W, H)" "hp ! r" "map_resample rs"] assms(5,6) by auto
    then show ?thesis using p ne by (auto simp: pil_thumbnail_def)
  qed
  then obtain px where t: "pil_thumbnail (hp ! r) (W, H) (map_resample rs) =
          Inr \<lparr>width = W, height = H, pixels = px\<rparr>" by blast
  show ?thesis using letterbox_unfold [OF t, of fill] assms(5,6) by simp
qed

theorem letterbox_same_aspect_no_border_witness:
  "letterbox_to_aspect [\<lparr>width = 2048, height = 2048, pixels = Raw 0\<rparr>] 0 (1024, 1024)
       (0, 0, 0) (Some ''lanczos'') =
     Inr ([\<lparr>width = 2048, height = 2048, pixels = Raw 0\<rparr>,
           \<lparr>width = 1024, height = 1024, pixels = Resized (1024, 1024) LANCZOS (Raw 0)\<rparr>,
           \<lparr>width = 1024, height = 1024,
              pixels = Pasted (Filled (0, 0, 0)) (0, 0) (1024, 1024)
                         (Resized (1024, 1024) LANCZOS (Raw 0))\<rparr>], 2)
   \<and> (\<exists>spx. letterbox_to_aspect [\<lparr>width = 2048, height = 2048, pixels = Raw 0\<rparr>] 0
              (1024, 1024) (0, 0, 0) (Some ''lanczos'') =
             Inr ([\<lparr>width = 2048, height = 2048, pixels = Raw 0\<rparr>] @
                       [\<lparr>width = 1024, height = 1024, pixels = spx\<rparr>,
                        \<lparr>width = 1024, height = 1024,
                           pixels = Pasted (Filled (0, 0, 0)) (0, 0) (1024, 1024) spx\<rparr>],
                  Suc (length [\<lparr>width = 2048, height = 2048, pixels = Raw 0\<rparr>])))"
proof -
  let ?hp = "[\<lparr>width = 2048, height = 2048, pixels = Raw 0\<rparr>]"
  have h1: "width (?hp ! 0) = 2048" and h2: "height (?hp ! 0) = 2048"
    and h3: "(0::int) < 2048" and h5: "(0::int) < 1024"
    and h7: "(2048::int) * 1024 = 2048 * 1024" and h8: "(1024::int) \<le> 2048"
    by simp_all
  have e: "letterbox_to_aspect ?hp 0 (1024, 1024) (0, 0, 0) (Some ''lanczos'') =
     Inr ([\<lparr>width = 2048, height = 2048, pixels = Raw 0\<rparr>,
           \<lparr>width = 1024, height = 1024, pixels = Resized (1024, 1024) LANCZOS (Raw 0)\<rparr>,
           \<lparr>width = 1024, height = 1024,
              pixels = Pasted (Filled (0, 0, 0)) (0, 0) (1024, 1024)
                         (Resized (1024, 1024) LANCZOS (Raw 0))\<rparr>], 2)"
    by code_simp
  from letterbox_same_aspect_no_border [OF h1 h2 h3 h3 h5 h5 h7 h8, of "(0, 0, 0)" "Some ''lanczos''"]
  show ?thesis using e by blast
qed


subsection \<open>C9: the input image\<close>







end
